theory Spec2Isabelle
  imports Main
begin

section \<open>Configuration of the build script\<close>

text \<open>
  The script \<^verbatim>\<open>build-with-tina.js\<close> fixes its configuration in four module constants;
  \<^verbatim>\<open>waitForTinaServer\<close> reads three of them directly and takes the fourth as the
  default of its only parameter.
\<close>

definition TINA_PORT :: nat where
  "TINA_PORT = 4001"

definition TINA_HOST :: string where
  "TINA_HOST = ''localhost''"

definition MAX_WAIT_TIME :: int where
  "MAX_WAIT_TIME = 60000"

definition CHECK_INTERVAL :: nat where
  "CHECK_INTERVAL = 2000"

section \<open>The socket probe \<^verbatim>\<open>isPortListening\<close>\<close>

text \<open>
  The probe creates a socket, arms a 3000 ms timer, registers three handlers on the socket
  and starts the connection. Everything after that happens in callbacks, so the model is
  a state and one function per callback. A callback runs to completion before the next
  one starts (one JavaScript thread), so each is a function from state to state.

  \<^item> \<open>resolved\<close> is the local flag of the source;
  \<^item> \<open>timer\<close> is the pending \<^verbatim>\<open>setTimeout\<close> with its delay, \<open>None\<close> once it has fired or
    \<^verbatim>\<open>clearTimeout\<close> has run;
  \<^item> \<open>destroyed\<close> is \<^verbatim>\<open>socket.destroyed\<close>: the socket has been destroyed and its handle
    closed, by a call of \<^verbatim>\<open>socket.destroy()\<close> in the script or by the socket itself;
  \<^item> \<open>settled\<close> is the value of the promise (a promise keeps the first value it is
    resolved with), \<open>resolve_calls\<close> counts the calls of \<^verbatim>\<open>resolve\<close>;
  \<^item> \<open>open_resolves\<close> counts the calls of \<^verbatim>\<open>resolve\<close> made while the socket was not
    destroyed. The source has no such counter: it is there to state that the socket is
    closed before the probe resolves.
\<close>

record probe_state =
  resolved :: bool
  timer :: "nat option"
  destroyed :: bool
  settled :: "bool option"
  resolve_calls :: nat
  open_resolves :: nat

definition clearTimeout :: "probe_state \<Rightarrow> probe_state" where
  "clearTimeout s = s\<lparr>timer := None\<rparr>"

definition socket_destroy :: "probe_state \<Rightarrow> probe_state" where
  "socket_destroy s = s\<lparr>destroyed := True\<rparr>"

definition resolve :: "bool \<Rightarrow> probe_state \<Rightarrow> probe_state" where
  "resolve v s =
     s\<lparr>settled := (case settled s of None \<Rightarrow> Some v | Some w \<Rightarrow> Some w),
       resolve_calls := Suc (resolve_calls s),
       open_resolves := (if destroyed s then open_resolves s else Suc (open_resolves s))\<rparr>"

text \<open>The callback of \<^verbatim>\<open>setTimeout(..., 3000)\<close>: it does not clear the timer (it is the timer).\<close>

definition on_timer :: "probe_state \<Rightarrow> probe_state" where
  "on_timer s =
     (if \<not> resolved s
      then resolve False (socket_destroy (s\<lparr>resolved := True\<rparr>))
      else s)"

text \<open>\<^verbatim>\<open>socket.on('connect', ...)\<close>\<close>

definition on_connect :: "probe_state \<Rightarrow> probe_state" where
  "on_connect s =
     (if \<not> resolved s
      then resolve True (socket_destroy (clearTimeout (s\<lparr>resolved := True\<rparr>)))
      else s)"

text \<open>\<^verbatim>\<open>socket.on('error', ...)\<close>: the flag, \<^verbatim>\<open>clearTimeout\<close>, a log line and \<^verbatim>\<open>resolve(false)\<close>.\<close>

definition on_error :: "probe_state \<Rightarrow> probe_state" where
  "on_error s =
     (if \<not> resolved s
      then resolve False (clearTimeout (s\<lparr>resolved := True\<rparr>))
      else s)"

text \<open>\<^verbatim>\<open>socket.on('timeout', ...)\<close>\<close>

definition on_timeout :: "probe_state \<Rightarrow> probe_state" where
  "on_timeout s =
     (if \<not> resolved s
      then resolve False (socket_destroy (clearTimeout (s\<lparr>resolved := True\<rparr>)))
      else s)"

text \<open>
  The events of one probe: the three events the socket can emit, and the expiry of the
  timer. The event loop calls the handler registered for an event; a timer that was
  cleared, or that has fired, does not fire.

  A \<^verbatim>\<open>net.Socket\<close> does not emit \<^verbatim>\<open>'error'\<close> while it is alive: the event is emitted by the
  socket's own \<^verbatim>\<open>destroy(err)\<close> (for a refused connection, \<^verbatim>\<open>afterConnect\<close> calls
  \<^verbatim>\<open>self.destroy(ex)\<close>), which marks the socket destroyed and closes its handle before the
  listeners of \<^verbatim>\<open>'error'\<close> run. So the error handler of the script runs on a socket that
  is destroyed already, and that is why it has no call of \<^verbatim>\<open>socket.destroy()\<close> of its own.
  The \<^verbatim>\<open>'connect'\<close> and \<^verbatim>\<open>'timeout'\<close> events leave the socket alive.
\<close>

datatype socket_event = Connect | Error | Timeout

datatype event = Socket socket_event | TimerFired

fun dispatch :: "probe_state \<Rightarrow> event \<Rightarrow> probe_state" where
  "dispatch s TimerFired =
     (case timer s of None \<Rightarrow> s | Some ms \<Rightarrow> on_timer (s\<lparr>timer := None\<rparr>))"
| "dispatch s (Socket Connect) = on_connect s"
| "dispatch s (Socket Error) = on_error (socket_destroy s)"
| "dispatch s (Socket Timeout) = on_timeout s"

text \<open>The state when the executor of the promise returns: nothing resolved, timer armed.\<close>

definition new_probe :: probe_state where
  "new_probe =
     \<lparr>resolved = False, timer = Some 3000, destroyed = False, settled = None,
      resolve_calls = 0, open_resolves = 0\<rparr>"

definition run_events :: "event list \<Rightarrow> probe_state" where
  "run_events evs = foldl dispatch new_probe evs"

text \<open>
  \<^verbatim>\<open>isPortListening(port, host)\<close>. The network is a parameter: \<open>net port host\<close> is the
  list of events the socket emits after \<^verbatim>\<open>socket.connect(port, host)\<close>, in order, up to the
  moment the timer is due. The timer is due after them, and fires if it is still armed.
  The result is the value of the promise, \<open>None\<close> if it were never settled.
\<close>

definition isPortListening_run :: "(nat \<Rightarrow> string \<Rightarrow> socket_event list) \<Rightarrow> nat \<Rightarrow> string \<Rightarrow> probe_state" where
  "isPortListening_run net port host = run_events (map Socket (net port host) @ [TimerFired])"

definition isPortListening :: "(nat \<Rightarrow> string \<Rightarrow> socket_event list) \<Rightarrow> nat \<Rightarrow> string \<Rightarrow> bool option" where
  "isPortListening net port host = settled (isPortListening_run net port host)"

subsection \<open>The probe in time\<close>

text \<open>
  When does the probe resolve? The socket's events now come with the time, in
  milliseconds after \<^verbatim>\<open>socket.connect\<close>, at which the socket emits them. The event loop
  runs the callback of a pending timer when its delay has elapsed, so before it delivers
  a socket event that arrives at or after that time; and when the socket has no more
  events, a timer that is still pending fires at its delay. The second component of the
  state is the time at which the promise was settled.
\<close>

definition at_time ::
  "nat \<Rightarrow> event \<Rightarrow> probe_state \<times> nat option \<Rightarrow> probe_state \<times> nat option" where
  "at_time t e p =
     (case p of (s, settled_at) \<Rightarrow>
        (dispatch s e,
         if settled s = None \<and> settled (dispatch s e) \<noteq> None then Some t else settled_at))"

definition timer_due ::
  "nat option \<Rightarrow> probe_state \<times> nat option \<Rightarrow> probe_state \<times> nat option" where
  "timer_due t p =
     (case timer (fst p) of
        None \<Rightarrow> p
      | Some ms \<Rightarrow>
          (case t of
             None \<Rightarrow> at_time ms TimerFired p
           | Some arrival \<Rightarrow> if ms \<le> arrival then at_time ms TimerFired p else p))"

fun deliver :: "probe_state \<times> nat option \<Rightarrow> nat \<times> socket_event \<Rightarrow> probe_state \<times> nat option" where
  "deliver p (t, e) = at_time t (Socket e) (timer_due (Some t) p)"

definition isPortListening_timed :: "(nat \<times> socket_event) list \<Rightarrow> probe_state \<times> nat option" where
  "isPortListening_timed arrivals = timer_due None (foldl deliver (new_probe, None) arrivals)"

section \<open>The fallback probe \<^verbatim>\<open>isPortListeningFallback\<close>\<close>

text \<open>
  The fallback builds four shell command lines from the port. A template literal
  \<^verbatim>\<open>${port}\<close> writes the number in decimal, \<^verbatim>\<open>port.toString(16)\<close> in hexadecimal with the
  digits \<^verbatim>\<open>a\<close> to \<^verbatim>\<open>f\<close> in lower case; neither writes a leading zero. A port is a
  non-negative integer, so it is a \<open>nat\<close> here.
\<close>

definition digit_char :: "nat \<Rightarrow> char" where
  "digit_char d = ''0123456789abcdef'' ! d"

function toString :: "nat \<Rightarrow> string" where
  "toString n = (if n < 10 then [digit_char n] else toString (n div 10) @ [digit_char (n mod 10)])"
  by pat_completeness auto
termination
  by (relation "measure (\<lambda>n. n)") auto

function toString16 :: "nat \<Rightarrow> string" where
  "toString16 n =
     (if n < 16 then [digit_char n] else toString16 (n div 16) @ [digit_char (n mod 16)])"
  by pat_completeness auto
termination
  by (relation "measure (\<lambda>n. n)") auto

declare toString.simps [simp del] toString16.simps [simp del]

text \<open>
  Reading a numeral back: the value of a digit (\<^verbatim>\<open>0\<close> to \<^verbatim>\<open>9\<close>, then \<^verbatim>\<open>a\<close> to \<^verbatim>\<open>f\<close> in lower
  case) and of a string of digits in a radix. These are not in the source; they say what
  \<open>toString\<close> and \<open>toString16\<close> have to produce.
\<close>

definition digit_value :: "char \<Rightarrow> nat" where
  "digit_value c = (if of_char c < (58::nat) then of_char c - 48 else of_char c - 87)"

definition read_radix :: "nat \<Rightarrow> string \<Rightarrow> nat" where
  "read_radix radix s = foldl (\<lambda>a c. a * radix + digit_value c) 0 s"

definition commands :: "nat \<Rightarrow> string list" where
  "commands port =
     [''ss -tuln | grep :'' @ toString port,
      ''netstat -tuln | grep :'' @ toString port,
      ''lsof -i :'' @ toString port,
      ''cat /proc/net/tcp | grep :'' @ toString16 port]"

text \<open>
  The output of a command reaches the script as a JavaScript string: a list of UTF-16
  code units, here natural numbers. \<^verbatim>\<open>String.prototype.trim\<close> removes from both ends the
  code units that are white space or line terminators of ECMAScript: tab, line feed,
  vertical tab, form feed, carriage return, space, no-break space, the byte order mark
  U+FEFF, the line and paragraph separators U+2028 and U+2029, and the other space
  separators of Unicode (U+1680, U+2000 to U+200A, U+202F, U+205F, U+3000).
\<close>

definition is_space :: "nat \<Rightarrow> bool" where
  "is_space u =
     (u \<in> set [0x09, 0x0A, 0x0B, 0x0C, 0x0D, 0x20, 0xA0, 0x1680, 0x2028, 0x2029, 0x202F,
               0x205F, 0x3000, 0xFEFF] \<or>
      0x2000 \<le> u \<and> u \<le> 0x200A)"

definition trim :: "nat list \<Rightarrow> nat list" where
  "trim s = rev (dropWhile is_space (rev (dropWhile is_space s)))"

text \<open>
  \<^verbatim>\<open>execAsync(command)\<close> is \<^verbatim>\<open>promisify(exec)\<close>: the promise resolves with the output of the
  shell, decoded to a string, when it exits with status 0 and rejects otherwise (a
  command that is not found or that fails, a \<^verbatim>\<open>grep\<close> that selects no line). What the
  operating system answers is a parameter \<open>execAsync\<close> of the model; \<open>Resolved\<close> carries
  the string \<^verbatim>\<open>stdout\<close>.

  The loop over the commands returns at the first command whose promise resolves with an
  output that is not blank; a rejection is caught and the loop continues. The model
  returns, beside the result, the commands it has run, in order.
\<close>

datatype exec_result = Resolved "nat list" | Rejected

fun try_commands :: "(string \<Rightarrow> exec_result) \<Rightarrow> string list \<Rightarrow> bool \<times> string list" where
  "try_commands execAsync [] = (False, [])"
| "try_commands execAsync (command # rest) =
     (case execAsync command of
        Resolved stdout \<Rightarrow>
          if trim stdout \<noteq> [] then (True, [command])
          else (case try_commands execAsync rest of (found, tried) \<Rightarrow> (found, command # tried))
      | Rejected \<Rightarrow>
          (case try_commands execAsync rest of (found, tried) \<Rightarrow> (found, command # tried)))"

text \<open>The parameter \<open>host\<close> is declared by the source and not used.\<close>

definition isPortListeningFallback_run ::
  "(string \<Rightarrow> exec_result) \<Rightarrow> nat \<Rightarrow> string \<Rightarrow> bool \<times> string list" where
  "isPortListeningFallback_run execAsync port host = try_commands execAsync (commands port)"

definition isPortListeningFallback :: "(string \<Rightarrow> exec_result) \<Rightarrow> nat \<Rightarrow> string \<Rightarrow> bool" where
  "isPortListeningFallback execAsync port host =
     fst (isPortListeningFallback_run execAsync port host)"

text \<open>
  When does a command count as a hit: its promise resolved, and the output has a
  character that is not white space.
\<close>

definition hit :: "(string \<Rightarrow> exec_result) \<Rightarrow> string \<Rightarrow> bool" where
  "hit execAsync command =
     (case execAsync command of Resolved stdout \<Rightarrow> trim stdout \<noteq> [] | Rejected \<Rightarrow> False)"

subsection \<open>What the shell does with these command lines\<close>

text \<open>
  \<^verbatim>\<open>exec\<close> hands the command line to \<^verbatim>\<open>/bin/sh\<close>. Three of the four lines are a pipeline
  \<^verbatim>\<open>producer | grep pattern\<close>: the status of a pipeline is the status of its last
  command, and \<^verbatim>\<open>grep\<close> exits with 0 when it has selected a line and with 1 when it has
  not. The patterns the script builds are a colon followed by digits or hexadecimal
  letters, which \<^verbatim>\<open>grep\<close> reads literally: a line is selected when the pattern occurs
  somewhere in it. The programs of the host are a parameter: \<open>tools line\<close> is the exit
  status and the lines a program writes to its standard output (status 127 and no line
  for a program that is not installed). The lines are bytes; \<^verbatim>\<open>exec\<close> decodes the output
  as UTF-8, and a byte sequence that is not UTF-8 becomes the replacement character
  U+FFFD.
\<close>

definition continuation :: "nat \<Rightarrow> nat \<Rightarrow> nat \<Rightarrow> bool" where
  "continuation lo hi b = (lo \<le> b \<and> b \<le> hi)"

definition code_units :: "nat \<Rightarrow> nat list" where
  "code_units cp =
     (if cp < 0x10000 then [cp]
      else [0xD800 + (cp - 0x10000) div 0x400, 0xDC00 + (cp - 0x10000) mod 0x400])"

text \<open>
  The decoder reads a first byte, which says how many continuation bytes it needs (none
  for a byte that cannot start a sequence) and which values the next byte may have;
  every later continuation byte is between 0x80 and 0xBF. \<open>accepted\<close> counts the
  continuation bytes that follow, up to the number needed. A byte that cannot continue
  the sequence is not used: the sequence so far becomes U+FFFD and that byte is decoded
  again as a first byte.
\<close>

definition needed :: "nat \<Rightarrow> nat" where
  "needed b =
     (if 0xC2 \<le> b \<and> b \<le> 0xDF then 1
      else if 0xE0 \<le> b \<and> b \<le> 0xEF then 2
      else if 0xF0 \<le> b \<and> b \<le> 0xF4 then 3
      else 0)"

definition lower_boundary :: "nat \<Rightarrow> nat" where
  "lower_boundary b = (if b = 0xE0 then 0xA0 else if b = 0xF0 then 0x90 else 0x80)"

definition upper_boundary :: "nat \<Rightarrow> nat" where
  "upper_boundary b = (if b = 0xED then 0x9F else if b = 0xF4 then 0x8F else 0xBF)"

fun accepted :: "nat \<Rightarrow> nat \<Rightarrow> nat \<Rightarrow> nat list \<Rightarrow> nat" where
  "accepted lo hi 0 bs = 0"
| "accepted lo hi (Suc n) [] = 0"
| "accepted lo hi (Suc n) (c # r) =
     (if continuation lo hi c then Suc (accepted 0x80 0xBF n r) else 0)"

text \<open>
  The payload of the first byte (its value without the length prefix) and of the
  continuation bytes (six bits each).
\<close>

definition code_point :: "nat \<Rightarrow> nat list \<Rightarrow> nat" where
  "code_point b cs =
     foldl (\<lambda>a c. a * 0x40 + (c - 0x80))
       (if needed b = 1 then b - 0xC0 else if needed b = 2 then b - 0xE0 else b - 0xF0) cs"

text \<open>
  One step: the code units that the first byte \<open>b\<close> and the bytes after it yield, and how
  many of the bytes after \<open>b\<close> the step has used.
\<close>

definition utf8_head :: "nat \<Rightarrow> nat list \<Rightarrow> nat list \<times> nat" where
  "utf8_head b bs =
     (if b < 0x80 then ([b], 0)
      else
        (let k = accepted (lower_boundary b) (upper_boundary b) (needed b) bs
         in if needed b = 0 \<or> k < needed b then ([0xFFFD], k)
            else (code_units (code_point b (take k bs)), k)))"

fun utf8 :: "nat list \<Rightarrow> nat list" where
  "utf8 [] = []"
| "utf8 (b # bs) = fst (utf8_head b bs) @ utf8 (drop (snd (utf8_head b bs)) bs)"

declare utf8.simps(2) [simp del]

definition decode_utf8 :: "string \<Rightarrow> nat list" where
  "decode_utf8 bytes = utf8 (map of_char bytes)"

fun contains :: "string \<Rightarrow> string \<Rightarrow> bool" where
  "contains pat [] = (pat = [])"
| "contains pat (c # cs) = (take (length pat) (c # cs) = pat \<or> contains pat cs)"

definition grep :: "string \<Rightarrow> string list \<Rightarrow> nat \<times> string list" where
  "grep pat input = (let selected = filter (contains pat) input
                     in (if selected = [] then 1 else 0, selected))"

fun split_pipe :: "string \<Rightarrow> string \<times> string option" where
  "split_pipe [] = ([], None)"
| "split_pipe (c # cs) =
     (if take 8 (c # cs) = '' | grep '' then ([], Some (drop 8 (c # cs)))
      else (case split_pipe cs of (producer, pat) \<Rightarrow> (c # producer, pat)))"

definition unlines :: "string list \<Rightarrow> string" where
  "unlines ls = concat (map (\<lambda>l. l @ [CHR 0x0A]) ls)"

definition sh :: "(string \<Rightarrow> nat \<times> string list) \<Rightarrow> string \<Rightarrow> exec_result" where
  "sh tools command =
     (case (case split_pipe command of
              (producer, None) \<Rightarrow> tools producer
            | (producer, Some pat) \<Rightarrow> grep pat (snd (tools producer))) of
        (status, out) \<Rightarrow>
          if status = 0 then Resolved (decode_utf8 (unlines out)) else Rejected)"

section \<open>The poller \<^verbatim>\<open>waitForTinaServer\<close>\<close>

text \<open>
  The poller is an \<^verbatim>\<open>async\<close> function: it reads the clock, and it awaits the probe, the
  fallback and a timer. What the world answers during attempt number \<open>k\<close> is a record:
  the events of the probe's socket, the replies of the operating system to the fallback's
  commands, and how long each await takes. The model takes a timer not to fire early, so
  a sleep is the interval plus a lag, and takes every await to return. Durations are
  natural numbers: the clock does not run backwards. The clock advances only across an
  await. The budget \<^verbatim>\<open>maxWaitTime\<close> is an integer number of milliseconds.
\<close>

record attempt_world =
  network :: "nat \<Rightarrow> string \<Rightarrow> socket_event list"
  probe_ms :: nat
  os_exec :: "string \<Rightarrow> exec_result"
  fallback_ms :: nat
  timer_lag :: nat

text \<open>
  The state of the loop: the clock (\<^verbatim>\<open>Date.now()\<close>), the counter \<^verbatim>\<open>attempts\<close>, and a trace
  of what the function has awaited, in order, with the arguments of each call.
\<close>

datatype action = Probe nat string | Fallback nat string | Sleep nat

record poll_state =
  now :: int
  attempts :: nat
  trace :: "action list"

text \<open>
  The function returns normally (\<open>Ready\<close>) or throws an \<^verbatim>\<open>Error\<close> whose message is built
  from \<^verbatim>\<open>maxWaitTime\<close> and \<^verbatim>\<open>attempts\<close>; the model keeps these two values.
\<close>

datatype outcome = Ready | TimeoutFailure nat int

definition begin_attempt :: "poll_state \<Rightarrow> poll_state" where
  "begin_attempt s = s\<lparr>attempts := Suc (attempts s)\<rparr>"

definition await_probe :: "attempt_world \<Rightarrow> poll_state \<Rightarrow> poll_state" where
  "await_probe w s =
     s\<lparr>now := now s + int (probe_ms w), trace := trace s @ [Probe TINA_PORT TINA_HOST]\<rparr>"

definition await_fallback :: "attempt_world \<Rightarrow> poll_state \<Rightarrow> poll_state" where
  "await_fallback w s =
     s\<lparr>now := now s + int (fallback_ms w), trace := trace s @ [Fallback TINA_PORT TINA_HOST]\<rparr>"

definition await_sleep :: "attempt_world \<Rightarrow> poll_state \<Rightarrow> poll_state" where
  "await_sleep w s =
     s\<lparr>now := now s + int CHECK_INTERVAL + int (timer_lag w),
       trace := trace s @ [Sleep CHECK_INTERVAL]\<rparr>"

text \<open>
  The \<^verbatim>\<open>while\<close> loop. \<open>None\<close> stands for a call that never returns: a loop that goes on
  for ever, or an await on a promise that is never settled. The \<^verbatim>\<open>try\<close> block around the
  two probes has nothing to catch: the probe's promise is never rejected and the fallback
  catches its own errors.
\<close>

partial_function (option) poll_loop ::
  "int \<Rightarrow> (nat \<Rightarrow> attempt_world) \<Rightarrow> int \<Rightarrow> poll_state \<Rightarrow> (outcome \<times> poll_state) option" where
  "poll_loop maxWaitTime world startTime s =
     (if now s - startTime < maxWaitTime then
        (let s1 = begin_attempt s;
             w = world (attempts s1);
             s2 = await_probe w s1
         in case isPortListening (network w) TINA_PORT TINA_HOST of
              None \<Rightarrow> None
            | Some isReady \<Rightarrow>
                if isReady then Some (Ready, s2)
                else
                  (let s3 = await_fallback w s2
                   in if isPortListeningFallback (os_exec w) TINA_PORT TINA_HOST
                      then Some (Ready, s3)
                      else poll_loop maxWaitTime world startTime (await_sleep w s3)))
      else Some (TimeoutFailure (attempts s) maxWaitTime, s))"

text \<open>
  \<^verbatim>\<open>waitForTinaServer(maxWaitTime)\<close>; \<open>clock\<close> is what \<^verbatim>\<open>Date.now()\<close> returns at the call.
\<close>

definition waitForTinaServer ::
  "int \<Rightarrow> (nat \<Rightarrow> attempt_world) \<Rightarrow> int \<Rightarrow> (outcome \<times> poll_state) option" where
  "waitForTinaServer maxWaitTime world clock =
     poll_loop maxWaitTime world clock \<lparr>now = clock, attempts = 0, trace = []\<rparr>"

text \<open>
  \<^verbatim>\<open>main\<close> calls \<^verbatim>\<open>waitForTinaServer()\<close> without an argument, and the default of the
  parameter applies.
\<close>

definition waitForTinaServer_default ::
  "(nat \<Rightarrow> attempt_world) \<Rightarrow> int \<Rightarrow> (outcome \<times> poll_state) option" where
  "waitForTinaServer_default world clock = waitForTinaServer MAX_WAIT_TIME world clock"

text \<open>What one attempt finds, in the terms of the two probes.\<close>

definition primary_ready :: "attempt_world \<Rightarrow> bool" where
  "primary_ready w = (isPortListening (network w) TINA_PORT TINA_HOST = Some True)"

definition fallback_ready :: "attempt_world \<Rightarrow> bool" where
  "fallback_ready w = isPortListeningFallback (os_exec w) TINA_PORT TINA_HOST"

text \<open>The state after an attempt in which both probes found nothing and the loop has slept.\<close>

definition failed_attempt :: "attempt_world \<Rightarrow> poll_state \<Rightarrow> poll_state" where
  "failed_attempt w s = await_sleep w (await_fallback w (await_probe w (begin_attempt s)))"

text \<open>
  The trace of \<open>n\<close> attempts that found nothing: each is the probe, then the fallback, then
  a sleep of \<open>CHECK_INTERVAL\<close>.
\<close>

definition rounds :: "nat \<Rightarrow> action list" where
  "rounds n =
     concat (replicate n [Probe TINA_PORT TINA_HOST, Fallback TINA_PORT TINA_HOST,
                          Sleep CHECK_INTERVAL])"

text \<open>
  The shape of a run that starts in state \<open>s\<close> and ends with \<open>r\<close> after \<open>n\<close> attempts that
  found nothing: those attempts found nothing on either probe; then either one more
  attempt succeeded, on the probe alone or on the fallback after the probe had failed,
  or the deadline had passed when the loop tested it.
\<close>

definition run_from :: "int \<Rightarrow> (nat \<Rightarrow> attempt_world) \<Rightarrow> int \<Rightarrow> poll_state \<Rightarrow> nat \<Rightarrow> outcome \<times> poll_state \<Rightarrow> bool" where
  "run_from m world t0 s n r =
     ((\<forall>k. attempts s < k \<and> k \<le> attempts s + n \<longrightarrow>
           \<not> primary_ready (world k) \<and> \<not> fallback_ready (world k)) \<and>
      (case fst r of
        Ready \<Rightarrow>
          attempts (snd r) = attempts s + Suc n \<and>
          (primary_ready (world (attempts s + Suc n)) \<and>
             trace (snd r) = trace s @ rounds n @ [Probe TINA_PORT TINA_HOST] \<or>
           \<not> primary_ready (world (attempts s + Suc n)) \<and>
           fallback_ready (world (attempts s + Suc n)) \<and>
             trace (snd r) =
               trace s @ rounds n @ [Probe TINA_PORT TINA_HOST, Fallback TINA_PORT TINA_HOST])
      | TimeoutFailure a b \<Rightarrow>
          a = attempts s + n \<and> b = m \<and> m \<le> now (snd r) - t0 \<and>
          attempts (snd r) = attempts s + n \<and> trace (snd r) = trace s @ rounds n))"

declare poll_loop.simps [code]

subsection \<open>Three worlds to run the poller in\<close>

text \<open>
  \<open>refusing\<close>: nothing listens, the connection is refused at once and no tool reports the
  port. \<open>accepting\<close>: the server accepts connections on \<^verbatim>\<open>localhost:4001\<close>. \<open>silent\<close>:
  packets are dropped, the socket emits nothing and the probe ends with its timer.
  \<open>late_start\<close> is a server that is up from the third attempt on.
\<close>

definition refusing :: attempt_world where
  "refusing =
     \<lparr>network = (\<lambda>port host. [Error]), probe_ms = 2,
      os_exec = (\<lambda>command. Rejected), fallback_ms = 50, timer_lag = 1\<rparr>"

definition accepting :: attempt_world where
  "accepting =
     \<lparr>network = (\<lambda>port host. if port = 4001 \<and> host = ''localhost'' then [Connect] else [Error]),
      probe_ms = 3, os_exec = (\<lambda>command. Rejected), fallback_ms = 50, timer_lag = 1\<rparr>"

definition silent :: attempt_world where
  "silent =
     \<lparr>network = (\<lambda>port host. []), probe_ms = 3000,
      os_exec = (\<lambda>command. Rejected), fallback_ms = 50, timer_lag = 1\<rparr>"


subsection \<open>A host for the fallback\<close>

text \<open>
  A host on which \<^verbatim>\<open>ss\<close> is installed and lists one listening socket, on port 8080; no
  other tool is installed.
\<close>

definition host_with_8080 :: "string \<Rightarrow> nat \<times> string list" where
  "host_with_8080 line =
     (if line = ''ss -tuln''
      then (0, [''Netid State  Recv-Q Send-Q Local Address:Port Peer Address:Port'',
                ''tcp   LISTEN 0      511          0.0.0.0:8080      0.0.0.0:*''])
      else (127, []))"

section \<open>The poller as the specification words it\<close>

text \<open>
  The specification describes the poller as an operation
  \<^verbatim>\<open>waitUntilReady(target, maxWaitMs, intervalMs)\<close> on a target \<^verbatim>\<open>{host, port}\<close>: record the
  start time and set the attempt counter to 0; while the elapsed time is below
  \<^verbatim>\<open>maxWaitMs\<close>, increment the counter, run \<^verbatim>\<open>probeOnce\<close> and return success if it reports
  reachable, else run \<^verbatim>\<open>probeFallback\<close> and return success if it reports reachable, else
  sleep for \<^verbatim>\<open>intervalMs\<close>; when the loop exits, fail with a TimeoutFailure that carries
  the attempts and the budget. The following definition is written from these words,
  with the probes of the source, to be compared with \<open>waitForTinaServer\<close>.
\<close>

record probe_target =
  target_host :: string
  target_port :: nat

partial_function (option) waitUntilReady_loop ::
  "probe_target \<Rightarrow> int \<Rightarrow> nat \<Rightarrow> (nat \<Rightarrow> attempt_world) \<Rightarrow> int \<Rightarrow> poll_state
     \<Rightarrow> (outcome \<times> poll_state) option" where
  "waitUntilReady_loop target maxWaitMs intervalMs world startTime s =
     (if now s - startTime < maxWaitMs then
        (let w = world (Suc (attempts s));
             s1 = s\<lparr>attempts := Suc (attempts s)\<rparr>;
             s2 = s1\<lparr>now := now s1 + int (probe_ms w),
                     trace := trace s1 @ [Probe (target_port target) (target_host target)]\<rparr>
         in case isPortListening (network w) (target_port target) (target_host target) of
              None \<Rightarrow> None
            | Some reachable \<Rightarrow>
                if reachable then Some (Ready, s2)
                else
                  (let s3 = s2\<lparr>now := now s2 + int (fallback_ms w),
                               trace := trace s2 @
                                 [Fallback (target_port target) (target_host target)]\<rparr>
                   in if isPortListeningFallback (os_exec w) (target_port target)
                           (target_host target)
                      then Some (Ready, s3)
                      else waitUntilReady_loop target maxWaitMs intervalMs world startTime
                             (s3\<lparr>now := now s3 + int intervalMs + int (timer_lag w),
                                  trace := trace s3 @ [Sleep intervalMs]\<rparr>)))
      else Some (TimeoutFailure (attempts s) maxWaitMs, s))"

definition waitUntilReady ::
  "probe_target \<Rightarrow> int \<Rightarrow> nat \<Rightarrow> (nat \<Rightarrow> attempt_world) \<Rightarrow> int
     \<Rightarrow> (outcome \<times> poll_state) option" where
  "waitUntilReady target maxWaitMs intervalMs world clock =
     waitUntilReady_loop target maxWaitMs intervalMs world clock
       \<lparr>now = clock, attempts = 0, trace = []\<rparr>"

declare waitUntilReady_loop.simps [code]

text \<open>
  A world in which a server listens on \<^verbatim>\<open>localhost:9999\<close> and nothing listens on any
  other port.
\<close>

definition other_port :: attempt_world where
  "other_port =
     \<lparr>network = (\<lambda>port host. if port = 9999 \<and> host = ''localhost'' then [Connect] else [Error]),
      probe_ms = 2, os_exec = (\<lambda>command. Rejected), fallback_ms = 50, timer_lag = 1\<rparr>"

section \<open>Properties of the socket probe\<close>

lemmas handler_defs =
  on_timer_def on_connect_def on_error_def on_timeout_def resolve_def socket_destroy_def
  clearTimeout_def

lemma dispatch_resolved:
  "resolved s \<Longrightarrow> destroyed s \<Longrightarrow>
   dispatch s e = (case e of TimerFired \<Rightarrow> s\<lparr>timer := None\<rparr> | Socket x \<Rightarrow> s)"
  by (cases "(s, e)" rule: dispatch.cases)
     (auto simp: handler_defs split: option.splits)

lemma foldl_dispatch_resolved:
  "resolved s \<Longrightarrow> destroyed s \<Longrightarrow>
   foldl dispatch s es = s\<lparr>timer := (if TimerFired \<in> set es then None else timer s)\<rparr>"
  by (induction es arbitrary: s) (auto simp: dispatch_resolved split: event.splits)

lemma dispatch_new_probe:
  "dispatch new_probe e =
     \<lparr>resolved = True, timer = None, destroyed = True,
      settled = Some (e = Socket Connect), resolve_calls = 1, open_resolves = 0\<rparr>"
  by (cases "(new_probe, e)" rule: dispatch.cases)
     (auto simp: new_probe_def handler_defs)

lemma run_events_Cons:
  "run_events (e # es) =
     \<lparr>resolved = True, timer = None, destroyed = True,
      settled = Some (e = Socket Connect), resolve_calls = 1, open_resolves = 0\<rparr>"
  by (simp add: run_events_def dispatch_new_probe foldl_dispatch_resolved)

lemma isPortListening_settles:
  "isPortListening net port host =
     Some (case net port host of [] \<Rightarrow> False | x # xs \<Rightarrow> x = Connect)"
  by (cases "net port host")
     (auto simp: isPortListening_def isPortListening_run_def run_events_Cons)

text \<open>
  C5. The three outcomes of the probe exclude one another: whatever events arrive, in
  whatever order and however often (socket events and the expiry of the timer), the
  first one settles the promise, with \<open>True\<close> exactly when it is the connect event, and
  \<^verbatim>\<open>resolve\<close> is called exactly once; every later event finds the flag set. A probe
  always resolves, and once: when the socket emits nothing, the first event is the timer.
\<close>

theorem isPortListening_first_event_wins:
  "settled (run_events (e # es)) = Some (e = Socket Connect) \<and>
   resolve_calls (run_events (e # es)) = 1 \<and>
   resolved (run_events (e # es)) \<and>
   isPortListening net port host =
     Some (case net port host of [] \<Rightarrow> False | x # xs \<Rightarrow> x = Connect) \<and>
   resolve_calls (isPortListening_run net port host) = 1"
  by (cases "net port host")
     (simp_all add: run_events_Cons isPortListening_settles isPortListening_run_def)

text \<open>
  The timed probe. Once the promise is settled no event changes the state but for the
  timer, and none changes the time of settlement.
\<close>

lemma new_probe_fields:
  "timer new_probe = Some 3000" "settled new_probe = None"
  by (simp_all add: new_probe_def)

lemma at_time_new_probe:
  "at_time t e (new_probe, None) = (dispatch new_probe e, Some t)"
  by (simp add: at_time_def dispatch_new_probe new_probe_fields del: dispatch.simps)

lemma at_time_settled:
  "resolved s \<Longrightarrow> destroyed s \<Longrightarrow> settled s \<noteq> None \<Longrightarrow> timer s = None \<Longrightarrow>
   at_time t e (s, d) = (s, d)"
  by (cases e) (auto simp: at_time_def dispatch_resolved)

lemma timer_due_settled: "timer s = None \<Longrightarrow> timer_due t (s, d) = (s, d)"
  by (simp add: timer_due_def)

lemma deliver_settled:
  "resolved s \<Longrightarrow> destroyed s \<Longrightarrow> settled s \<noteq> None \<Longrightarrow> timer s = None \<Longrightarrow>
   deliver (s, d) a = (s, d)"
  by (cases a) (simp add: timer_due_settled at_time_settled)

lemma foldl_deliver_settled:
  "resolved s \<Longrightarrow> destroyed s \<Longrightarrow> settled s \<noteq> None \<Longrightarrow> timer s = None \<Longrightarrow>
   foldl deliver (s, d) as = (s, d)"
  by (induction as) (simp_all add: deliver_settled)

lemma deliver_new_probe:
  "deliver (new_probe, None) (t, e) =
     (if 3000 \<le> t then (dispatch new_probe TimerFired, Some 3000)
      else (dispatch new_probe (Socket e), Some t))"
proof (cases "3000 \<le> t")
  case True
  have "timer_due (Some t) (new_probe, None) = (dispatch new_probe TimerFired, Some 3000)"
    using True
    by (simp add: timer_due_def at_time_new_probe new_probe_fields del: dispatch.simps)
  then show ?thesis
    using True by (simp add: dispatch_new_probe at_time_settled del: dispatch.simps)
next
  case False
  have "timer_due (Some t) (new_probe, None) = (new_probe, None)"
    using False by (simp add: timer_due_def new_probe_fields)
  then show ?thesis
    using False by (simp add: at_time_new_probe del: dispatch.simps)
qed

lemma isPortListening_timed_eq:
  "isPortListening_timed arrivals =
     (case arrivals of
        [] \<Rightarrow> (dispatch new_probe TimerFired, Some 3000)
      | (t, e) # rest \<Rightarrow>
          if 3000 \<le> t then (dispatch new_probe TimerFired, Some 3000)
          else (dispatch new_probe (Socket e), Some t))"
proof (cases arrivals)
  case Nil
  then show ?thesis
    by (simp add: isPortListening_timed_def timer_due_def at_time_new_probe new_probe_fields
        del: dispatch.simps)
next
  case (Cons a rest)
  obtain t e where a: "a = (t, e)" by (cases a)
  show ?thesis
    unfolding Cons a isPortListening_timed_def
    by (simp add: deliver_new_probe dispatch_new_probe foldl_deliver_settled timer_due_settled
        del: deliver.simps dispatch.simps)
qed

text \<open>
  C4. On every exit path the socket is closed before the probe resolves, and the probe
  resolves within its 3000 ms. Whatever events arrive, in whatever order, no call of
  \<^verbatim>\<open>resolve\<close> is made while the socket is alive, and after the first event the socket is
  destroyed: on connect and on the socket's timeout the handler destroys it, when the
  timer expires the timer's callback destroys it, and on an error the socket has
  destroyed itself before its handler runs. With the events in time, the promise is
  settled at the time of the first event if that is before 3000 ms, and at 3000 ms by
  the timer otherwise, and the socket is destroyed then.
\<close>

theorem isPortListening_closes_socket_within_timeout:
  "open_resolves (run_events es) = 0 \<and>
   destroyed (run_events (e # es)) \<and>
   destroyed (isPortListening_run net port host) \<and>
   open_resolves (isPortListening_run net port host) = 0 \<and>
   snd (isPortListening_timed arrivals) =
     Some (case arrivals of [] \<Rightarrow> 3000 | (t, x) # rest \<Rightarrow> min t 3000) \<and>
   settled (fst (isPortListening_timed arrivals)) =
     Some (case arrivals of [] \<Rightarrow> False | (t, x) # rest \<Rightarrow> t < 3000 \<and> x = Connect) \<and>
   destroyed (fst (isPortListening_timed arrivals)) \<and>
   open_resolves (fst (isPortListening_timed arrivals)) = 0"
proof -
  have 1: "open_resolves (run_events es) = 0"
    by (cases es) (simp_all add: run_events_Cons, simp add: run_events_def new_probe_def)
  have 2: "destroyed (run_events (e # es))"
    by (simp add: run_events_Cons)
  have 3: "destroyed (isPortListening_run net port host) \<and>
           open_resolves (isPortListening_run net port host) = 0"
    by (cases "net port host") (simp_all add: isPortListening_run_def run_events_Cons)
  have 4: "snd (isPortListening_timed arrivals) =
             Some (case arrivals of [] \<Rightarrow> 3000 | (t, x) # rest \<Rightarrow> min t 3000) \<and>
           settled (fst (isPortListening_timed arrivals)) =
             Some (case arrivals of [] \<Rightarrow> False | (t, x) # rest \<Rightarrow> t < 3000 \<and> x = Connect) \<and>
           destroyed (fst (isPortListening_timed arrivals)) \<and>
           open_resolves (fst (isPortListening_timed arrivals)) = 0"
    by (auto simp: isPortListening_timed_eq dispatch_new_probe simp del: dispatch.simps
        split: list.splits)
  from 1 2 3 4 show ?thesis by simp
qed

text \<open>
  What the error handler owes to the socket: had the socket been alive when its error
  handler ran, the handler would have resolved the promise with the socket still open.
\<close>

lemma on_error_alone_leaves_socket:
  "on_error new_probe =
     \<lparr>resolved = True, timer = None, destroyed = False, settled = Some False,
      resolve_calls = 1, open_resolves = 1\<rparr>"
  by (simp add: new_probe_def handler_defs)

text \<open>
  A refused connection (the socket destroys itself and emits the error after 2 ms), a
  server that accepts after 40 ms, and a host that does not answer.
\<close>

lemma isPortListening_timed_examples:
  "isPortListening_timed [(2, Error)] =
     (\<lparr>resolved = True, timer = None, destroyed = True, settled = Some False,
       resolve_calls = 1, open_resolves = 0\<rparr>, Some 2)"
  "isPortListening_timed [(40, Connect)] =
     (\<lparr>resolved = True, timer = None, destroyed = True, settled = Some True,
       resolve_calls = 1, open_resolves = 0\<rparr>, Some 40)"
  "isPortListening_timed [] =
     (\<lparr>resolved = True, timer = None, destroyed = True, settled = Some False,
       resolve_calls = 1, open_resolves = 0\<rparr>, Some 3000)"
  "isPortListening_timed [(3500, Connect)] =
     (\<lparr>resolved = True, timer = None, destroyed = True, settled = Some False,
       resolve_calls = 1, open_resolves = 0\<rparr>, Some 3000)"
  by (simp_all add: isPortListening_timed_eq dispatch_new_probe del: dispatch.simps)

section \<open>Properties of the fallback probe\<close>

lemma try_commands_eq:
  "try_commands execAsync cs =
     (list_ex (hit execAsync) cs,
      takeWhile (\<lambda>c. \<not> hit execAsync c) cs @ take 1 (dropWhile (\<lambda>c. \<not> hit execAsync c) cs))"
  by (induction cs) (auto simp: hit_def split: exec_result.splits)

text \<open>
  The two renderings of the port. \<open>toString\<close> writes the decimal numeral of the port and
  \<open>toString16\<close> its hexadecimal numeral with lower-case letters: the string is not empty,
  its characters are digits of the radix, read back in the radix it gives the port, and
  it has no leading zero. There is one such string for every number.
\<close>

lemma below_16: "d < 16 \<Longrightarrow> d \<in> set [0, 1, 2, 3, 4, 5, 6, 7, 8, 9, 10, 11, 12, 13, 14, 15::nat]"
  by (simp) arith

lemma digit_char_hex:
  assumes "d < 16"
  shows "digit_char d \<in> set ''0123456789abcdef''" "digit_value (digit_char d) = d"
    "(digit_char d = CHR ''0'') = (d = 0)"
  using below_16[OF assms] by (auto simp: digit_char_def digit_value_def)

lemma digit_char_dec: "d < 10 \<Longrightarrow> digit_char d \<in> set ''0123456789''"
proof -
  assume "d < 10"
  then have "d \<in> set [0, 1, 2, 3, 4, 5, 6, 7, 8, 9::nat]" by simp arith
  then show ?thesis by (auto simp: digit_char_def)
qed

lemma read_radix_snoc: "read_radix r (xs @ [c]) = read_radix r xs * r + digit_value c"
  by (simp add: read_radix_def)

lemma leading_digit:
  assumes "s \<noteq> []" "length s = 1 \<or> hd s \<noteq> CHR ''0''" "read_radix r s \<noteq> 0"
  shows "hd s \<noteq> CHR ''0''"
proof (cases "length s = 1")
  case True
  then obtain c where "s = [c]" by (cases s) auto
  with assms(3) show ?thesis by (auto simp: read_radix_def digit_value_def)
next
  case False
  with assms(2) show ?thesis by simp
qed

lemma toString_numeral:
  "toString n \<noteq> [] \<and> set (toString n) \<subseteq> set ''0123456789'' \<and>
   read_radix 10 (toString n) = n \<and>
   (length (toString n) = 1 \<or> hd (toString n) \<noteq> CHR ''0'')"
proof (induction n rule: toString.induct)
  case (1 n)
  show ?case
  proof (cases "n < 10")
    case True
    then have "n < 16" by simp
    have eq: "toString n = [digit_char n]"
      using True by (subst toString.simps) simp
    show ?thesis
      unfolding eq using digit_char_dec[OF True] digit_char_hex(2)[OF \<open>n < 16\<close>]
      by (simp add: read_radix_def)
  next
    case False
    let ?s = "toString (n div 10)"
    from False 1 have ih: "?s \<noteq> []" "set ?s \<subseteq> set ''0123456789''"
      "read_radix 10 ?s = n div 10" "length ?s = 1 \<or> hd ?s \<noteq> CHR ''0''"
      by simp_all
    from False have "n div 10 \<noteq> 0" by simp
    with ih have hd: "hd ?s \<noteq> CHR ''0''" using leading_digit[of ?s 10] by simp
    have eq: "toString n = ?s @ [digit_char (n mod 10)]"
      using False by (subst toString.simps) simp
    have m: "n mod 10 < 10" "n mod 10 < 16" by simp_all
    show ?thesis
      unfolding eq using ih hd digit_char_dec[OF m(1)] digit_char_hex(2)[OF m(2)]
      by (simp add: read_radix_snoc)
  qed
qed

lemma toString16_numeral:
  "toString16 n \<noteq> [] \<and> set (toString16 n) \<subseteq> set ''0123456789abcdef'' \<and>
   read_radix 16 (toString16 n) = n \<and>
   (length (toString16 n) = 1 \<or> hd (toString16 n) \<noteq> CHR ''0'')"
proof (induction n rule: toString16.induct)
  case (1 n)
  show ?case
  proof (cases "n < 16")
    case True
    have eq: "toString16 n = [digit_char n]"
      using True by (subst toString16.simps) simp
    show ?thesis
      unfolding eq using digit_char_hex(1,2)[OF True]
      by (simp add: read_radix_def)
  next
    case False
    let ?s = "toString16 (n div 16)"
    from False 1 have ih: "?s \<noteq> []" "set ?s \<subseteq> set ''0123456789abcdef''"
      "read_radix 16 ?s = n div 16" "length ?s = 1 \<or> hd ?s \<noteq> CHR ''0''"
      by simp_all
    from False have "n div 16 \<noteq> 0" by simp
    with ih have hd: "hd ?s \<noteq> CHR ''0''" using leading_digit[of ?s 16] by simp
    have eq: "toString16 n = ?s @ [digit_char (n mod 16)]"
      using False by (subst toString16.simps) simp
    have m: "n mod 16 < 16" by simp
    show ?thesis
      unfolding eq using ih hd digit_char_hex(1,2)[OF m]
      by (simp add: read_radix_snoc)
  qed
qed

text \<open>
  C3. The fallback runs its four commands in this order: \<^verbatim>\<open>ss\<close> piped to \<^verbatim>\<open>grep\<close>,
  \<^verbatim>\<open>netstat\<close> piped to \<^verbatim>\<open>grep\<close>, \<^verbatim>\<open>lsof\<close>, and the scan of \<^verbatim>\<open>/proc/net/tcp\<close> piped to
  \<^verbatim>\<open>grep\<close>. It returns at the first command that is a hit and runs none after it; it
  returns true exactly when one of the four is a hit, and false after all four when none
  is. A hit is a command whose promise resolves (the command ran and its last program
  exited with 0) with an output that is not blank; the output is that of a search for the
  port, since the first three command lines carry the port in decimal and the fourth
  carries it in lower-case hexadecimal.
\<close>

theorem isPortListeningFallback_ordered_commands:
  "isPortListeningFallback_run execAsync port host =
     (if hit execAsync (''ss -tuln | grep :'' @ toString port)
      then (True, [''ss -tuln | grep :'' @ toString port])
      else if hit execAsync (''netstat -tuln | grep :'' @ toString port)
      then (True, [''ss -tuln | grep :'' @ toString port,
                   ''netstat -tuln | grep :'' @ toString port])
      else if hit execAsync (''lsof -i :'' @ toString port)
      then (True, [''ss -tuln | grep :'' @ toString port,
                   ''netstat -tuln | grep :'' @ toString port,
                   ''lsof -i :'' @ toString port])
      else (hit execAsync (''cat /proc/net/tcp | grep :'' @ toString16 port),
            [''ss -tuln | grep :'' @ toString port,
             ''netstat -tuln | grep :'' @ toString port,
             ''lsof -i :'' @ toString port,
             ''cat /proc/net/tcp | grep :'' @ toString16 port])) \<and>
   isPortListeningFallback execAsync port host =
     (hit execAsync (''ss -tuln | grep :'' @ toString port) \<or>
      hit execAsync (''netstat -tuln | grep :'' @ toString port) \<or>
      hit execAsync (''lsof -i :'' @ toString port) \<or>
      hit execAsync (''cat /proc/net/tcp | grep :'' @ toString16 port)) \<and>
   hit execAsync command =
     (case execAsync command of Resolved stdout \<Rightarrow> trim stdout \<noteq> [] | Rejected \<Rightarrow> False) \<and>
   toString port \<noteq> [] \<and> set (toString port) \<subseteq> set ''0123456789'' \<and>
   read_radix 10 (toString port) = port \<and>
   (length (toString port) = 1 \<or> hd (toString port) \<noteq> CHR ''0'') \<and>
   toString16 port \<noteq> [] \<and> set (toString16 port) \<subseteq> set ''0123456789abcdef'' \<and>
   read_radix 16 (toString16 port) = port \<and>
   (length (toString16 port) = 1 \<or> hd (toString16 port) \<noteq> CHR ''0'')"
proof -
  have run: "isPortListeningFallback_run execAsync port host =
     (if hit execAsync (''ss -tuln | grep :'' @ toString port)
      then (True, [''ss -tuln | grep :'' @ toString port])
      else if hit execAsync (''netstat -tuln | grep :'' @ toString port)
      then (True, [''ss -tuln | grep :'' @ toString port,
                   ''netstat -tuln | grep :'' @ toString port])
      else if hit execAsync (''lsof -i :'' @ toString port)
      then (True, [''ss -tuln | grep :'' @ toString port,
                   ''netstat -tuln | grep :'' @ toString port,
                   ''lsof -i :'' @ toString port])
      else (hit execAsync (''cat /proc/net/tcp | grep :'' @ toString16 port),
            [''ss -tuln | grep :'' @ toString port,
             ''netstat -tuln | grep :'' @ toString port,
             ''lsof -i :'' @ toString port,
             ''cat /proc/net/tcp | grep :'' @ toString16 port]))"
    unfolding isPortListeningFallback_run_def try_commands_eq
    by (simp add: commands_def)
  have res: "isPortListeningFallback execAsync port host =
     (hit execAsync (''ss -tuln | grep :'' @ toString port) \<or>
      hit execAsync (''netstat -tuln | grep :'' @ toString port) \<or>
      hit execAsync (''lsof -i :'' @ toString port) \<or>
      hit execAsync (''cat /proc/net/tcp | grep :'' @ toString16 port))"
    unfolding isPortListeningFallback_def isPortListeningFallback_run_def try_commands_eq
    by (simp add: commands_def)
  have h: "hit execAsync command =
     (case execAsync command of Resolved stdout \<Rightarrow> trim stdout \<noteq> [] | Rejected \<Rightarrow> False)"
    by (simp add: hit_def)
  from run res h toString_numeral[of port] toString16_numeral[of port]
  show ?thesis by blast
qed

section \<open>Properties of the poller\<close>

text \<open>The four ways through one turn of the loop.\<close>

lemma primary_ready_cases:
  "isPortListening (network w) TINA_PORT TINA_HOST = Some (primary_ready w)"
  by (auto simp: primary_ready_def isPortListening_settles split: list.splits)

lemma poll_loop_timeout:
  "maxWaitTime \<le> now s - startTime \<Longrightarrow>
   poll_loop maxWaitTime world startTime s = Some (TimeoutFailure (attempts s) maxWaitTime, s)"
  by (subst poll_loop.simps) simp

lemma poll_loop_primary:
  "now s - startTime < maxWaitTime \<Longrightarrow> primary_ready (world (Suc (attempts s))) \<Longrightarrow>
   poll_loop maxWaitTime world startTime s =
     Some (Ready, await_probe (world (Suc (attempts s))) (begin_attempt s))"
  by (subst poll_loop.simps) (simp add: Let_def primary_ready_cases begin_attempt_def)

lemma poll_loop_fallback:
  "now s - startTime < maxWaitTime \<Longrightarrow> \<not> primary_ready (world (Suc (attempts s))) \<Longrightarrow>
   fallback_ready (world (Suc (attempts s))) \<Longrightarrow>
   poll_loop maxWaitTime world startTime s =
     Some (Ready, await_fallback (world (Suc (attempts s)))
                    (await_probe (world (Suc (attempts s))) (begin_attempt s)))"
  by (subst poll_loop.simps)
     (simp add: Let_def primary_ready_cases begin_attempt_def fallback_ready_def)

lemma poll_loop_retry:
  "now s - startTime < maxWaitTime \<Longrightarrow> \<not> primary_ready (world (Suc (attempts s))) \<Longrightarrow>
   \<not> fallback_ready (world (Suc (attempts s))) \<Longrightarrow>
   poll_loop maxWaitTime world startTime s =
     poll_loop maxWaitTime world startTime (failed_attempt (world (Suc (attempts s))) s)"
  by (subst poll_loop.simps)
     (simp add: Let_def primary_ready_cases begin_attempt_def fallback_ready_def
        failed_attempt_def)

lemma now_failed_attempt:
  "now (failed_attempt w s) =
     now s + int (probe_ms w) + int (fallback_ms w) + int CHECK_INTERVAL + int (timer_lag w)"
  by (simp add: failed_attempt_def await_sleep_def await_fallback_def await_probe_def
      begin_attempt_def)

lemma attempts_failed_attempt: "attempts (failed_attempt w s) = Suc (attempts s)"
  by (simp add: failed_attempt_def await_sleep_def await_fallback_def await_probe_def
      begin_attempt_def)

lemma trace_failed_attempt:
  "trace (failed_attempt w s) =
     trace s @ [Probe TINA_PORT TINA_HOST, Fallback TINA_PORT TINA_HOST, Sleep CHECK_INTERVAL]"
  by (simp add: failed_attempt_def await_sleep_def await_fallback_def await_probe_def
      begin_attempt_def)

lemma poll_loop_total:
  assumes T: "\<And>s. m \<le> now s - t0 \<Longrightarrow> P s (TimeoutFailure (attempts s) m, s)"
    and A: "\<And>s. now s - t0 < m \<Longrightarrow> primary_ready (world (Suc (attempts s))) \<Longrightarrow>
              P s (Ready, await_probe (world (Suc (attempts s))) (begin_attempt s))"
    and B: "\<And>s. now s - t0 < m \<Longrightarrow> \<not> primary_ready (world (Suc (attempts s))) \<Longrightarrow>
              fallback_ready (world (Suc (attempts s))) \<Longrightarrow>
              P s (Ready, await_fallback (world (Suc (attempts s)))
                            (await_probe (world (Suc (attempts s))) (begin_attempt s)))"
    and C: "\<And>s r. now s - t0 < m \<Longrightarrow> \<not> primary_ready (world (Suc (attempts s))) \<Longrightarrow>
              \<not> fallback_ready (world (Suc (attempts s))) \<Longrightarrow>
              P (failed_attempt (world (Suc (attempts s))) s) r \<Longrightarrow> P s r"
  shows "\<exists>r. poll_loop m world t0 s = Some r \<and> P s r"
proof (induction "nat (m - (now s - t0))" arbitrary: s rule: less_induct)
  case less
  let ?w = "world (Suc (attempts s))"
  show ?case
  proof (cases "now s - t0 < m")
    case False
    then show ?thesis using T[of s] by (simp add: poll_loop_timeout)
  next
    case True
    show ?thesis
    proof (cases "primary_ready ?w")
      case True
      with \<open>now s - t0 < m\<close> show ?thesis using A[of s] by (simp add: poll_loop_primary)
    next
      case np: False
      show ?thesis
      proof (cases "fallback_ready ?w")
        case True
        with np \<open>now s - t0 < m\<close> show ?thesis using B[of s] by (simp add: poll_loop_fallback)
      next
        case nf: False
        have "nat (m - (now (failed_attempt ?w s) - t0)) < nat (m - (now s - t0))"
          using \<open>now s - t0 < m\<close> by (simp add: now_failed_attempt CHECK_INTERVAL_def)
        from less[OF this] obtain r where
          r: "poll_loop m world t0 (failed_attempt ?w s) = Some r" "P (failed_attempt ?w s) r"
          by blast
        have "P s r" using C[of s r] True np nf r(2) by blast
        moreover have "poll_loop m world t0 s = Some r"
          using poll_loop_retry[of s t0 m world] True np nf r(1) by simp
        ultimately show ?thesis by blast
      qed
    qed
  qed
qed

lemma attempts_await [simp]:
  "attempts (await_probe w s) = attempts s"
  "attempts (await_fallback w s) = attempts s"
  "attempts (begin_attempt s) = Suc (attempts s)"
  by (simp_all add: await_probe_def await_fallback_def begin_attempt_def)

lemma poll_loop_bounded:
  "\<exists>r. poll_loop m world t0 s = Some r \<and>
     (fst r = Ready \<or> fst r = TimeoutFailure (attempts (snd r)) m \<and> m \<le> now (snd r) - t0) \<and>
     (int (attempts (snd r)) - int (attempts s)) * int CHECK_INTERVAL
        < max (m - (now s - t0)) 0 + int CHECK_INTERVAL"
proof (rule poll_loop_total, goal_cases)
  case (1 s)
  then show ?case by (simp add: CHECK_INTERVAL_def)
next
  case (2 s)
  then show ?case by (simp add: CHECK_INTERVAL_def)
next
  case (3 s)
  then show ?case by (simp add: CHECK_INTERVAL_def)
next
  case (4 s r)
  let ?s' = "failed_attempt (world (Suc (attempts s))) s"
  have n: "now s + int CHECK_INTERVAL \<le> now ?s'" by (simp add: now_failed_attempt)
  have a: "attempts ?s' = Suc (attempts s)" by (simp add: attempts_failed_attempt)
  define k where "k = int (attempts (snd r)) - int (attempts s) - 1"
  define rem' where "rem' = m - (now ?s' - t0)"
  define rem where "rem = m - (now s - t0)"
  have ih: "k * 2000 < max rem' 0 + 2000"
    using 4(4) by (simp add: a k_def rem'_def CHECK_INTERVAL_def algebra_simps)
  have le: "rem' + 2000 \<le> rem" "0 < rem"
    using n 4(1) by (simp_all add: rem_def rem'_def CHECK_INTERVAL_def)
  have "(k + 1) * 2000 < max rem 0 + 2000"
  proof (cases "0 < rem'")
    case True
    with ih le show ?thesis by simp
  next
    case False
    with ih have "k * 2000 < 2000" by simp
    then have "k \<le> 0" by simp
    then have "(k + 1) * 2000 \<le> 2000" by simp
    with le show ?thesis by simp
  qed
  then have "(int (attempts (snd r)) - int (attempts s)) * int CHECK_INTERVAL
        < max (m - (now s - t0)) 0 + int CHECK_INTERVAL"
    by (simp add: k_def rem_def CHECK_INTERVAL_def algebra_simps)
  with 4(4) show ?case by simp
qed

text \<open>
  C2. The poller returns, for every \<open>maxWaitTime\<close>, every world and every clock: it ends
  with success, or with the timeout failure once the elapsed time has reached
  \<open>maxWaitTime\<close>. It does not poll without end: an attempt is started only while the
  elapsed time is below \<open>maxWaitTime\<close>, and every attempt that fails is followed by a sleep
  of \<open>CHECK_INTERVAL\<close>, so the number of attempts is bounded by the budget.
\<close>

theorem waitForTinaServer_terminates:
  "\<exists>out s. waitForTinaServer maxWaitTime world clock = Some (out, s) \<and>
     (out = Ready \<or>
      out = TimeoutFailure (attempts s) maxWaitTime \<and> maxWaitTime \<le> now s - clock) \<and>
     int (attempts s) * int CHECK_INTERVAL < max maxWaitTime 0 + int CHECK_INTERVAL"
  using poll_loop_bounded[of maxWaitTime world clock "\<lparr>now = clock, attempts = 0, trace = []\<rparr>"]
  by (auto simp: waitForTinaServer_def)

lemma rounds_Suc:
  "[Probe TINA_PORT TINA_HOST, Fallback TINA_PORT TINA_HOST, Sleep CHECK_INTERVAL] @ rounds n
     = rounds (Suc n)"
  by (simp add: rounds_def)

lemma trace_await [simp]:
  "trace (await_probe w s) = trace s @ [Probe TINA_PORT TINA_HOST]"
  "trace (await_fallback w s) = trace s @ [Fallback TINA_PORT TINA_HOST]"
  "trace (begin_attempt s) = trace s"
  by (simp_all add: await_probe_def await_fallback_def begin_attempt_def)

lemma run_from_step:
  assumes "\<not> primary_ready (world (Suc (attempts s)))" "\<not> fallback_ready (world (Suc (attempts s)))"
    and "run_from m world t0 (failed_attempt (world (Suc (attempts s))) s) n r"
  shows "run_from m world t0 s (Suc n) r"
proof -
  let ?s' = "failed_attempt (world (Suc (attempts s))) s"
  have un: "\<not> primary_ready (world k) \<and> \<not> fallback_ready (world k)"
    if "attempts s < k" "k \<le> attempts s + Suc n" for k
  proof (cases "k = Suc (attempts s)")
    case True
    with assms(1,2) show ?thesis by simp
  next
    case False
    with that have "attempts ?s' < k \<and> k \<le> attempts ?s' + n"
      by (simp add: attempts_failed_attempt)
    with assms(3) show ?thesis by (simp add: run_from_def)
  qed
  show ?thesis
    using assms(3) un
    by (cases "fst r")
       (auto simp: run_from_def attempts_failed_attempt trace_failed_attempt
          rounds_Suc[symmetric])
qed

lemma poll_loop_run:
  "\<exists>r. poll_loop m world t0 s = Some r \<and> (\<exists>n. run_from m world t0 s n r)"
proof (rule poll_loop_total, goal_cases)
  case (1 s)
  then show ?case by (intro exI[of _ 0]) (auto simp: run_from_def rounds_def)
next
  case (2 s)
  then show ?case by (intro exI[of _ 0]) (auto simp: run_from_def rounds_def)
next
  case (3 s)
  then show ?case by (intro exI[of _ 0]) (auto simp: run_from_def rounds_def)
next
  case (4 s r)
  then obtain n where "run_from m world t0 (failed_attempt (world (Suc (attempts s))) s) n r"
    by blast
  with 4(2,3) have "run_from m world t0 s (Suc n) r" by (rule run_from_step)
  then show ?case by blast
qed


text \<open>
  C7. The poller throws exactly when the budget is used up and no probe has succeeded:
  the failure carries the number of attempts made and \<open>maxWaitTime\<close>, the elapsed time
  has reached \<open>maxWaitTime\<close>, and every attempt made found the port unreachable on both
  probes. An attempt that finds the port unreachable is not an error by itself: a run
  that ends with success may have any number of such attempts before the one that
  succeeds.
\<close>

theorem waitForTinaServer_fails_only_at_deadline:
  "\<exists>out s. waitForTinaServer maxWaitTime world clock = Some (out, s) \<and>
     (case out of
        TimeoutFailure a b \<Rightarrow>
          a = attempts s \<and> b = maxWaitTime \<and> maxWaitTime \<le> now s - clock \<and>
          (\<forall>k. 1 \<le> k \<and> k \<le> attempts s \<longrightarrow>
             \<not> primary_ready (world k) \<and> \<not> fallback_ready (world k))
      | Ready \<Rightarrow>
          1 \<le> attempts s \<and>
          (primary_ready (world (attempts s)) \<or> fallback_ready (world (attempts s))) \<and>
          (\<forall>k. 1 \<le> k \<and> k < attempts s \<longrightarrow>
             \<not> primary_ready (world k) \<and> \<not> fallback_ready (world k)))"
proof -
  obtain r n where r: "waitForTinaServer maxWaitTime world clock = Some r"
    and n: "run_from maxWaitTime world clock \<lparr>now = clock, attempts = 0, trace = []\<rparr> n r"
    using poll_loop_run[of maxWaitTime world clock "\<lparr>now = clock, attempts = 0, trace = []\<rparr>"]
    by (auto simp: waitForTinaServer_def)
  show ?thesis
    using r n
    by (intro exI[of _ "fst r"] exI[of _ "snd r"])
       (auto simp: run_from_def Suc_le_eq split: outcome.splits)
qed

subsection \<open>The poller in the three worlds\<close>

lemma refusing_unreachable: "\<not> primary_ready refusing \<and> \<not> fallback_ready refusing"
  by (simp add: primary_ready_def fallback_ready_def refusing_def isPortListening_settles
      isPortListeningFallback_def isPortListeningFallback_run_def commands_def)

lemma silent_unreachable: "\<not> primary_ready silent \<and> \<not> fallback_ready silent"
  by (simp add: primary_ready_def fallback_ready_def silent_def isPortListening_settles
      isPortListeningFallback_def isPortListeningFallback_run_def commands_def)


lemma world_ms [simp]:
  "probe_ms refusing = 2" "fallback_ms refusing = 50" "timer_lag refusing = 1"
  "probe_ms accepting = 3" "fallback_ms accepting = 50" "timer_lag accepting = 1"
  "probe_ms silent = 3000" "fallback_ms silent = 50" "timer_lag silent = 1"
  by (simp_all add: refusing_def accepting_def silent_def)

lemmas state_simps =
  failed_attempt_def await_sleep_def await_fallback_def await_probe_def begin_attempt_def
  CHECK_INTERVAL_def

lemma run_refusing_3000:
  "waitForTinaServer 3000 (\<lambda>k. refusing) 1000 =
     Some (TimeoutFailure 2 3000, \<lparr>now = 5106, attempts = 2, trace = rounds 2\<rparr>)"
  by (simp add: waitForTinaServer_def poll_loop_retry poll_loop_timeout refusing_unreachable
      state_simps rounds_def numeral_2_eq_2)

lemma run_silent_3000:
  "waitForTinaServer 3000 (\<lambda>k. silent) 1000 =
     Some (TimeoutFailure 1 3000, \<lparr>now = 6051, attempts = 1, trace = rounds 1\<rparr>)"
  by (simp add: waitForTinaServer_def poll_loop_retry poll_loop_timeout silent_unreachable
      state_simps rounds_def)



theorem waitForTinaServer_fails_only_at_deadline_witness:
  "waitForTinaServer 3000 (\<lambda>k. refusing) 1000 =
     Some (TimeoutFailure 2 3000, \<lparr>now = 5106, attempts = 2, trace = rounds 2\<rparr>) \<and>
   (3000::int) \<le> 5106 - 1000 \<and>
   \<not> primary_ready refusing \<and> \<not> fallback_ready refusing"
proof -
  from waitForTinaServer_fails_only_at_deadline[of 3000 "\<lambda>k. refusing" 1000] obtain out s where
    r: "waitForTinaServer 3000 (\<lambda>k. refusing) 1000 = Some (out, s)"
    and c: "case out of
        TimeoutFailure a b \<Rightarrow>
          a = attempts s \<and> b = 3000 \<and> 3000 \<le> now s - 1000 \<and>
          (\<forall>k. 1 \<le> k \<and> k \<le> attempts s \<longrightarrow>
             \<not> primary_ready refusing \<and> \<not> fallback_ready refusing)
      | Ready \<Rightarrow>
          1 \<le> attempts s \<and>
          (primary_ready refusing \<or> fallback_ready refusing) \<and>
          (\<forall>k. 1 \<le> k \<and> k < attempts s \<longrightarrow>
             \<not> primary_ready refusing \<and> \<not> fallback_ready refusing)"
    by blast
  from r run_refusing_3000 have o: "out = TimeoutFailure 2 3000" "attempts s = 2" "now s = 5106"
    by auto
  with c have "3000 \<le> now s - 1000"
    and "\<forall>k. 1 \<le> k \<and> k \<le> (2::nat) \<longrightarrow> \<not> primary_ready refusing \<and> \<not> fallback_ready refusing"
    by simp_all
  then have "\<not> primary_ready refusing \<and> \<not> fallback_ready refusing" by auto
  then show ?thesis using run_refusing_3000 by simp
qed

text \<open>
  C8. Called with a budget of 0, or with a negative one, the poller fails at once: the
  test of the loop fails the first time, no probe is run, nothing is awaited, and the
  failure carries 0 attempts.
\<close>

theorem waitForTinaServer_expired:
  "maxWaitTime \<le> 0 \<Longrightarrow>
   waitForTinaServer maxWaitTime world clock =
     Some (TimeoutFailure 0 maxWaitTime, \<lparr>now = clock, attempts = 0, trace = []\<rparr>)"
  by (simp add: waitForTinaServer_def poll_loop_timeout)

theorem waitForTinaServer_expired_witness:
  "(0::int) \<le> 0 \<and>
   waitForTinaServer 0 (\<lambda>k. accepting) 1000 =
     Some (TimeoutFailure 0 0, \<lparr>now = 1000, attempts = 0, trace = []\<rparr>)"
  using waitForTinaServer_expired[of 0 "\<lambda>k. accepting" 1000] by simp

text \<open>
  C9. With a budget of 3000 ms (the interval is \<open>CHECK_INTERVAL\<close>, 2000 ms) and a port
  that every probe of every attempt finds unreachable, the poller ends with the timeout
  failure after exactly one or two attempts: two when the first attempt, without its
  sleep, took less than 1000 ms, one otherwise.
\<close>

theorem waitForTinaServer_no_listener_3000:
  assumes "\<forall>k. \<not> primary_ready (world k) \<and> \<not> fallback_ready (world k)"
  shows "\<exists>s. waitForTinaServer 3000 world clock = Some (TimeoutFailure (attempts s) 3000, s) \<and>
           attempts s =
             (if probe_ms (world 1) + fallback_ms (world 1) + timer_lag (world 1) < 1000
              then 2 else 1)"
proof -
  let ?s0 = "\<lparr>now = clock, attempts = 0, trace = []\<rparr>"
  let ?s1 = "failed_attempt (world (Suc 0)) ?s0"
  let ?s2 = "failed_attempt (world (Suc (Suc 0))) ?s1"
  let ?d = "probe_ms (world (Suc 0)) + fallback_ms (world (Suc 0)) + timer_lag (world (Suc 0))"
  have un: "\<not> primary_ready (world k)" "\<not> fallback_ready (world k)" for k
    using assms by simp_all
  have n1: "now ?s1 - clock = int ?d + 2000"
    by (simp add: now_failed_attempt CHECK_INTERVAL_def)
  have n2: "4000 \<le> now ?s2 - clock"
    by (simp add: now_failed_attempt CHECK_INTERVAL_def)
  have step1: "poll_loop 3000 world clock ?s0 = poll_loop 3000 world clock ?s1"
    using poll_loop_retry[of ?s0 clock 3000 world] un by simp
  show ?thesis
  proof (cases "?d < 1000")
    case True
    then have "now ?s1 - clock < 3000" using n1 by simp
    then have "poll_loop 3000 world clock ?s1 = poll_loop 3000 world clock ?s2"
      using poll_loop_retry[of ?s1 clock 3000 world] un
      by (simp add: attempts_failed_attempt)
    also have "\<dots> = Some (TimeoutFailure (attempts ?s2) 3000, ?s2)"
      using n2 by (intro poll_loop_timeout) simp
    finally show ?thesis
      using True step1
      by (intro exI[of _ ?s2]) (simp add: waitForTinaServer_def attempts_failed_attempt)
  next
    case False
    then have "3000 \<le> now ?s1 - clock" using n1 by simp
    then have "poll_loop 3000 world clock ?s1 = Some (TimeoutFailure (attempts ?s1) 3000, ?s1)"
      by (rule poll_loop_timeout)
    then show ?thesis
      using False step1
      by (intro exI[of _ ?s1]) (simp add: waitForTinaServer_def attempts_failed_attempt)
  qed
qed

theorem waitForTinaServer_no_listener_3000_witness:
  "\<not> primary_ready refusing \<and> \<not> fallback_ready refusing \<and>
   waitForTinaServer 3000 (\<lambda>k. refusing) 1000 =
     Some (TimeoutFailure 2 3000, \<lparr>now = 5106, attempts = 2, trace = rounds 2\<rparr>)"
proof -
  have un: "\<forall>k. \<not> primary_ready ((\<lambda>k. refusing) k) \<and> \<not> fallback_ready ((\<lambda>k. refusing) k)"
    using refusing_unreachable by simp
  from waitForTinaServer_no_listener_3000[OF un, of 1000] obtain s where
    s: "waitForTinaServer 3000 (\<lambda>k. refusing) 1000 = Some (TimeoutFailure (attempts s) 3000, s)"
       "attempts s = 2"
    by auto
  with run_refusing_3000 refusing_unreachable show ?thesis by simp
qed

section \<open>The fallback and the shell\<close>

lemma toString_examples:
  "toString 4001 = ''4001''" "toString16 4001 = ''fa1''" "toString 0 = ''0''"
  "toString16 65535 = ''ffff''"
  by (simp_all add: toString.simps toString16.simps digit_char_def)

lemma split_pipe_ss: "split_pipe (''ss -tuln | grep :'' @ x) = (''ss -tuln'', Some ('':'' @ x))"
  by simp

lemma split_pipe_netstat:
  "split_pipe (''netstat -tuln | grep :'' @ x) = (''netstat -tuln'', Some ('':'' @ x))"
  by simp

lemma contains_here: "contains pat (pat @ post)"
proof (cases "pat @ post")
  case Nil
  then show ?thesis by simp
next
  case (Cons c cs)
  have "take (length pat) (pat @ post) = pat" by simp
  then show ?thesis by (simp add: Cons)
qed

lemma contains_append: "contains pat (pre @ pat @ post)"
  by (induction pre) (auto simp: contains_here)

lemma contains_set: "contains pat l \<Longrightarrow> set pat \<subseteq> set l"
proof (induction l)
  case Nil
  then show ?case by simp
next
  case (Cons c cs)
  from Cons.prems have "take (length pat) (c # cs) = pat \<or> contains pat cs" by simp
  then show ?case
  proof
    assume "take (length pat) (c # cs) = pat"
    then have "set pat = set (take (length pat) (c # cs))" by simp
    also have "\<dots> \<subseteq> set (c # cs)" by (rule set_take_subset)
    finally show ?thesis .
  next
    assume "contains pat cs"
    with Cons.IH show ?thesis by auto
  qed
qed

lemma trim_eq_Nil: "trim s = [] \<longleftrightarrow> (\<forall>c \<in> set s. is_space c)"
proof
  assume "trim s = []"
  then have "\<forall>c \<in> set (dropWhile is_space s). is_space c"
    by (simp add: trim_def)
  moreover have "\<not> is_space (hd (dropWhile is_space s))" if "dropWhile is_space s \<noteq> []"
    using that by (rule hd_dropWhile)
  ultimately have "dropWhile is_space s = []"
    by (cases "dropWhile is_space s") auto
  then show "\<forall>c \<in> set s. is_space c" by simp
next
  assume "\<forall>c \<in> set s. is_space c"
  then have e: "dropWhile is_space s = []" by simp
  show "trim s = []" by (simp only: trim_def e rev.simps dropWhile.simps)
qed

text \<open>A byte below 128 is a character of its own wherever it stands in the output.\<close>

text \<open>A byte below 128 is a character of its own wherever it stands in the output.\<close>

lemma accepted_used:
  "0x80 \<le> lo \<Longrightarrow> x \<in> set (take (accepted lo hi n bs) bs) \<Longrightarrow> 0x80 \<le> x"
  by (induction lo hi n bs rule: accepted.induct)
     (auto simp: continuation_def split: if_splits)

lemma utf8_head_used:
  "0x80 \<le> b \<Longrightarrow> x \<in> set (take (snd (utf8_head b bs)) bs) \<Longrightarrow> 0x80 \<le> x"
proof -
  assume b: "0x80 \<le> b" and x: "x \<in> set (take (snd (utf8_head b bs)) bs)"
  have "snd (utf8_head b bs) = accepted (lower_boundary b) (upper_boundary b) (needed b) bs"
    using b by (simp add: utf8_head_def Let_def)
  moreover have "0x80 \<le> lower_boundary b" by (simp add: lower_boundary_def)
  ultimately show ?thesis using x accepted_used by metis
qed

lemma utf8_head_ascii: "b < 0x80 \<Longrightarrow> utf8_head b bs = ([b], 0)"
  by (simp add: utf8_head_def)

lemma utf8_ascii: "a < 0x80 \<Longrightarrow> a \<in> set bs \<Longrightarrow> a \<in> set (utf8 bs)"
proof (induction bs rule: utf8.induct)
  case 1
  then show ?case by simp
next
  case (2 b bs)
  let ?k = "snd (utf8_head b bs)"
  show ?case
  proof (cases "b < 0x80")
    case True
    with 2 show ?thesis by (auto simp: utf8.simps(2) utf8_head_ascii)
  next
    case False
    with "2.prems" have "a \<in> set bs" by auto
    then have "a \<in> set (take ?k bs) \<or> a \<in> set (drop ?k bs)"
      using append_take_drop_id[of ?k bs] by (metis Un_iff set_append)
    moreover have "a \<notin> set (take ?k bs)"
      using utf8_head_used[of b a bs] False "2.prems"(1) by auto
    ultimately have "a \<in> set (drop ?k bs)" by simp
    with 2 have "a \<in> set (utf8 (drop ?k bs))" by simp
    then show ?thesis by (simp add: utf8.simps(2))
  qed
qed

text \<open>
  The decoder on some outputs: a no-break space and a line feed; a line separator, a
  space and a byte order mark; a character beyond the basic plane; a sequence cut short
  by a colon; bytes that start no sequence, a surrogate and a value beyond U+10FFFF.
\<close>

lemma utf8_examples:
  "utf8 [0xC2, 0xA0, 0x0A] = [0xA0, 0x0A]"
  "utf8 [0xE2, 0x80, 0xA8, 0x20, 0xEF, 0xBB, 0xBF] = [0x2028, 0x20, 0xFEFF]"
  "utf8 [0xF0, 0x9F, 0x98, 0x80] = [0xD83D, 0xDE00]"
  "utf8 [0xE2, 0x80, 0x3A] = [0xFFFD, 0x3A]"
  "utf8 [0xC0, 0xA0, 0xED, 0xA0, 0x80, 0xF4, 0x90] =
     [0xFFFD, 0xFFFD, 0xFFFD, 0xFFFD, 0xFFFD, 0xFFFD, 0xFFFD]"
  by (simp_all add: utf8.simps(2) utf8_head_def needed_def lower_boundary_def
      upper_boundary_def continuation_def code_point_def code_units_def Let_def
      numeral_2_eq_2 numeral_3_eq_3)

lemma trim_examples:
  "trim (utf8 [0xC2, 0xA0, 0x0A]) = []"
  "trim (utf8 [0xE2, 0x80, 0xA8, 0x20, 0xEF, 0xBB, 0xBF]) = []"
  "trim [0x20, 0x3A, 0x0A] = [0x3A]"
  by (simp_all add: utf8_examples) (simp_all add: trim_def is_space_def)

lemma decode_utf8_colon: "CHR '':'' \<in> set bytes \<Longrightarrow> 58 \<in> set (decode_utf8 bytes)"
proof -
  assume "CHR '':'' \<in> set bytes"
  then have "of_char CHR '':'' \<in> of_char ` set bytes" by (rule imageI)
  then have "(58::nat) \<in> set (map of_char bytes)" by simp
  then show ?thesis unfolding decode_utf8_def by (intro utf8_ascii) simp_all
qed

lemma grep_hit:
  assumes "l \<in> set input" "contains (CHR '':'' # pat) l"
  shows "case grep (CHR '':'' # pat) input of
           (status, out) \<Rightarrow> status = 0 \<and> trim (decode_utf8 (unlines out)) \<noteq> []"
proof -
  let ?sel = "filter (contains (CHR '':'' # pat)) input"
  from assms have l: "l \<in> set ?sel" by simp
  then have ne: "?sel \<noteq> []" by (cases ?sel) simp_all
  from assms(2) have "CHR '':'' \<in> set l" using contains_set by fastforce
  with l have "CHR '':'' \<in> set (unlines ?sel)" by (auto simp: unlines_def)
  then have "58 \<in> set (decode_utf8 (unlines ?sel))" by (rule decode_utf8_colon)
  moreover have "\<not> is_space 58" by (simp add: is_space_def)
  ultimately have "trim (decode_utf8 (unlines ?sel)) \<noteq> []" by (auto simp: trim_eq_Nil)
  with ne show ?thesis by (simp add: grep_def Let_def)
qed

text \<open>
  In the shell model a \<^verbatim>\<open>grep\<close> command of the fallback is a hit exactly when a line of its
  producer contains the pattern: the colon and the rendering of the port.
\<close>

lemma grep_hit_iff:
  "(case grep (CHR '':'' # pat) input of
      (status, out) \<Rightarrow> status = 0 \<and> trim (decode_utf8 (unlines out)) \<noteq> []) =
   list_ex (contains (CHR '':'' # pat)) input"
proof (cases "list_ex (contains (CHR '':'' # pat)) input")
  case True
  then obtain l where "l \<in> set input" "contains (CHR '':'' # pat) l"
    by (auto simp: list_ex_iff)
  then show ?thesis using grep_hit[of l input pat] True by simp
next
  case False
  then have "filter (contains (CHR '':'' # pat)) input = []"
    by (auto simp: list_ex_iff filter_empty_conv)
  with False show ?thesis by (simp add: grep_def)
qed

lemma split_pipe_proc:
  "split_pipe (''cat /proc/net/tcp | grep :'' @ x) = (''cat /proc/net/tcp'', Some ('':'' @ x))"
  by simp

lemma hit_sh_grep:
  "hit (sh tools) (''ss -tuln | grep :'' @ pat) =
     list_ex (contains ('':'' @ pat)) (snd (tools ''ss -tuln''))"
  "hit (sh tools) (''netstat -tuln | grep :'' @ pat) =
     list_ex (contains ('':'' @ pat)) (snd (tools ''netstat -tuln''))"
  "hit (sh tools) (''cat /proc/net/tcp | grep :'' @ pat) =
     list_ex (contains ('':'' @ pat)) (snd (tools ''cat /proc/net/tcp''))"
  using grep_hit_iff[of pat "snd (tools ''ss -tuln'')"]
    grep_hit_iff[of pat "snd (tools ''netstat -tuln'')"]
    grep_hit_iff[of pat "snd (tools ''cat /proc/net/tcp'')"]
  by (auto simp: hit_def sh_def split: prod.splits)

text \<open>
  C10. The text commands of the fallback select a line when \<^verbatim>\<open>:<port>\<close> occurs anywhere in
  it, so the port is matched as a prefix of what follows the colon: when \<^verbatim>\<open>ss\<close> or
  \<^verbatim>\<open>netstat\<close> prints a line for a socket on another port whose decimal digits begin with
  the digits of the queried port, the fallback reports the queried port as listening.
  On a host whose only listener is on port 8080 it reports port 80 as listening.
\<close>

theorem isPortListeningFallback_matches_by_prefix:
  assumes "take (length (toString port)) (toString other) = toString port"
    and "producer = ''ss -tuln'' \<or> producer = ''netstat -tuln''"
    and "before @ '':'' @ toString other @ rest \<in> set (snd (tools producer))"
  shows "isPortListeningFallback (sh tools) port host"
proof -
  let ?pat = "'':'' @ toString port"
  let ?l = "before @ '':'' @ toString other @ rest"
  obtain d where d: "toString other = toString port @ d"
    using assms(1) append_take_drop_id[of "length (toString port)" "toString other"] by metis
  have "contains ?pat (before @ ?pat @ (d @ rest))" by (rule contains_append)
  then have c: "contains (CHR '':'' # toString port) ?l" by (simp add: d)
  have g: "case grep (CHR '':'' # toString port) (snd (tools producer)) of
           (status, out) \<Rightarrow> status = 0 \<and> trim (decode_utf8 (unlines out)) \<noteq> []"
    using assms(3) c by (rule grep_hit)
  have "hit (sh tools) (producer @ '' | grep :'' @ toString port)"
    using assms(2) g by (auto simp: hit_def sh_def split: prod.splits)
  then have "list_ex (hit (sh tools)) (commands port)"
    using assms(2) by (auto simp: commands_def)
  then show ?thesis
    by (simp add: isPortListeningFallback_def isPortListeningFallback_run_def try_commands_eq)
qed

theorem isPortListeningFallback_matches_by_prefix_witness:
  "take (length (toString 80)) (toString 8080) = toString 80 \<and>
   snd (host_with_8080 ''ss -tuln'') =
     [''Netid State  Recv-Q Send-Q Local Address:Port Peer Address:Port'',
      ''tcp   LISTEN 0      511          0.0.0.0:8080      0.0.0.0:*''] \<and>
   isPortListeningFallback (sh host_with_8080) 80 ''localhost''"
proof -
  have d: "toString 80 = ''80''" "toString 8080 = ''8080''"
    by (simp_all add: toString.simps digit_char_def)
  have p: "take (length (toString 80)) (toString 8080) = toString 80" by (simp add: d)
  have o: "snd (host_with_8080 ''ss -tuln'') =
     [''Netid State  Recv-Q Send-Q Local Address:Port Peer Address:Port'',
      ''tcp   LISTEN 0      511          0.0.0.0:8080      0.0.0.0:*'']"
    by (simp add: host_with_8080_def)
  have l: "''tcp   LISTEN 0      511          0.0.0.0'' @ '':'' @ toString 8080 @ ''      0.0.0.0:*''
             \<in> set (snd (host_with_8080 ''ss -tuln''))"
    by (simp add: o d)
  from isPortListeningFallback_matches_by_prefix[where port = 80 and other = 8080
      and producer = "''ss -tuln''" and tools = host_with_8080 and host = "''localhost''"
      and before = "''tcp   LISTEN 0      511          0.0.0.0''"
      and rest = "''      0.0.0.0:*''"] p o l
  show ?thesis by simp
qed

text \<open>
  Two more runs of the shell model. On the host with its listener on 8080 a query for
  port 8081 finds nothing. The kernel writes the ports of \<^verbatim>\<open>/proc/net/tcp\<close> as four
  upper-case hexadecimal digits, so the line of a listener on port 4001 (\<^verbatim>\<open>0FA1\<close>) is
  not selected by the fourth command's pattern \<^verbatim>\<open>:fa1\<close>.
\<close>

lemma fallback_other_port_not_matched:
  "\<not> isPortListeningFallback (sh host_with_8080) 8081 ''localhost''"
  by (simp add: isPortListeningFallback_def isPortListeningFallback_run_def commands_def
      toString.simps toString16.simps digit_char_def sh_def host_with_8080_def grep_def)

lemma proc_net_tcp_upper_case:
  "grep ('':'' @ toString16 4001)
     [''   0: 00000000:0FA1 00000000:0000 0A 00000000:00000000 00:00000000 00000000''] = (1, [])"
  by (simp add: toString16.simps digit_char_def grep_def)

section \<open>The poller and its configuration\<close>

lemma poll_loop_eq_spec:
  "poll_loop m world t0 s =
     waitUntilReady_loop \<lparr>target_host = TINA_HOST, target_port = TINA_PORT\<rparr> m CHECK_INTERVAL
       world t0 s"
proof (induction "nat (m - (now s - t0))" arbitrary: s rule: less_induct)
  case less
  let ?w = "world (Suc (attempts s))"
  let ?T = "\<lparr>target_host = TINA_HOST, target_port = TINA_PORT\<rparr>"
  show ?case
  proof (cases "now s - t0 < m \<and> \<not> primary_ready ?w \<and> \<not> fallback_ready ?w")
    case False
    then show ?thesis
      by (subst poll_loop.simps, subst waitUntilReady_loop.simps)
         (auto simp: Let_def primary_ready_cases fallback_ready_def state_simps)
  next
    case True
    have "nat (m - (now (failed_attempt ?w s) - t0)) < nat (m - (now s - t0))"
      using True by (simp add: now_failed_attempt CHECK_INTERVAL_def)
    from less[OF this] have ih:
      "poll_loop m world t0 (failed_attempt ?w s) =
       waitUntilReady_loop ?T m CHECK_INTERVAL world t0 (failed_attempt ?w s)" .
    have "poll_loop m world t0 s = poll_loop m world t0 (failed_attempt ?w s)"
      using True by (simp add: poll_loop_retry)
    moreover have "waitUntilReady_loop ?T m CHECK_INTERVAL world t0 s =
        waitUntilReady_loop ?T m CHECK_INTERVAL world t0 (failed_attempt ?w s)"
      using True
      by (subst waitUntilReady_loop.simps)
         (simp add: Let_def primary_ready_cases fallback_ready_def failed_attempt_def
            await_sleep_def await_fallback_def await_probe_def begin_attempt_def)
    ultimately show ?thesis using ih by simp
  qed
qed

text \<open>
  C6, as amended. \<open>waitForTinaServer\<close> has one parameter, \<open>maxWaitTime\<close>. The target and
  the interval are not arguments: they are the module constants. For every budget the
  function is \<^verbatim>\<open>waitUntilReady\<close> at the target \<open>TINA_HOST\<close>, \<open>TINA_PORT\<close> and the interval
  \<open>CHECK_INTERVAL\<close>.
\<close>

theorem waitForTinaServer_fixed_configuration:
  "waitForTinaServer maxWaitTime world clock =
     waitUntilReady \<lparr>target_host = TINA_HOST, target_port = TINA_PORT\<rparr> maxWaitTime
       CHECK_INTERVAL world clock"
  by (simp add: waitForTinaServer_def waitUntilReady_def poll_loop_eq_spec)

lemma other_port_unreachable: "\<not> primary_ready other_port \<and> \<not> fallback_ready other_port"
  by (simp add: primary_ready_def fallback_ready_def other_port_def isPortListening_settles
      isPortListeningFallback_def isPortListeningFallback_run_def commands_def TINA_PORT_def)

lemma other_port_ms [simp]:
  "probe_ms other_port = 2" "fallback_ms other_port = 50" "timer_lag other_port = 1"
  by (simp_all add: other_port_def)

lemma run_other_port_3000:
  "waitForTinaServer 3000 (\<lambda>k. other_port) 1000 =
     Some (TimeoutFailure 2 3000, \<lparr>now = 5106, attempts = 2, trace = rounds 2\<rparr>)"
  by (simp add: waitForTinaServer_def poll_loop_retry poll_loop_timeout other_port_unreachable
      state_simps rounds_def numeral_2_eq_2)

text \<open>
  C6, as stated, fails. A caller that wants \<^verbatim>\<open>localhost:9999\<close> polled, where a server
  listens, would get success at the first attempt from \<^verbatim>\<open>waitUntilReady\<close>; a caller that
  wants an interval of 1500 ms would see sleeps of 1500 ms. \<open>waitForTinaServer\<close> has no
  way to be told either: in the same world it probes \<^verbatim>\<open>localhost:4001\<close>, sleeps 2000 ms
  and fails.
\<close>

theorem waitForTinaServer_configuration_counterexample:
  "waitUntilReady \<lparr>target_host = ''localhost'', target_port = 9999\<rparr> 3000 2000
       (\<lambda>k. other_port) 1000 =
     Some (Ready, \<lparr>now = 1002, attempts = 1, trace = [Probe 9999 ''localhost'']\<rparr>) \<and>
   waitUntilReady \<lparr>target_host = ''localhost'', target_port = 4001\<rparr> 3000 1500
       (\<lambda>k. other_port) 1000 =
     Some (TimeoutFailure 2 3000,
           \<lparr>now = 4106, attempts = 2,
              trace = [Probe 4001 ''localhost'', Fallback 4001 ''localhost'', Sleep 1500,
                       Probe 4001 ''localhost'', Fallback 4001 ''localhost'', Sleep 1500]\<rparr>) \<and>
   waitForTinaServer 3000 (\<lambda>k. other_port) 1000 =
     Some (TimeoutFailure 2 3000,
           \<lparr>now = 5106, attempts = 2,
              trace = [Probe 4001 ''localhost'', Fallback 4001 ''localhost'', Sleep 2000,
                       Probe 4001 ''localhost'', Fallback 4001 ''localhost'', Sleep 2000]\<rparr>)"
proof -
  have f: "\<not> isPortListeningFallback (os_exec other_port) p h" for p h
    by (simp add: other_port_def isPortListeningFallback_def isPortListeningFallback_run_def
        commands_def)
  have n: "network other_port p h =
             (if p = 9999 \<and> h = ''localhost'' then [Connect] else [Error])" for p h
    by (simp add: other_port_def)
  have a: "waitUntilReady \<lparr>target_host = ''localhost'', target_port = 9999\<rparr> 3000 2000
       (\<lambda>k. other_port) 1000 =
     Some (Ready, \<lparr>now = 1002, attempts = 1, trace = [Probe 9999 ''localhost'']\<rparr>)"
    by (simp add: waitUntilReady_def waitUntilReady_loop.simps isPortListening_settles n)
  have b: "waitUntilReady \<lparr>target_host = ''localhost'', target_port = 4001\<rparr> 3000 1500
       (\<lambda>k. other_port) 1000 =
     Some (TimeoutFailure 2 3000,
           \<lparr>now = 4106, attempts = 2,
              trace = [Probe 4001 ''localhost'', Fallback 4001 ''localhost'', Sleep 1500,
                       Probe 4001 ''localhost'', Fallback 4001 ''localhost'', Sleep 1500]\<rparr>)"
    by (simp add: waitUntilReady_def waitUntilReady_loop.simps isPortListening_settles n f)
  have c: "waitForTinaServer 3000 (\<lambda>k. other_port) 1000 =
     Some (TimeoutFailure 2 3000,
           \<lparr>now = 5106, attempts = 2,
              trace = [Probe 4001 ''localhost'', Fallback 4001 ''localhost'', Sleep 2000,
                       Probe 4001 ''localhost'', Fallback 4001 ''localhost'', Sleep 2000]\<rparr>)"
    by (simp add: run_other_port_3000 rounds_def numeral_2_eq_2 TINA_PORT_def TINA_HOST_def
        CHECK_INTERVAL_def)
  from a b c show ?thesis by simp
qed

end
